theory Spec2Isabelle
  imports Complex_Main "HOL-Library.Sublist" "HOL-Library.Monad_Syntax"
begin

section \<open>Strings, characters and the builtins the parser calls\<close>

text \<open>
  A Python \<open>str\<close> is a sequence of Unicode code points, so a string is a list of code
  points here (an Isabelle \<open>char\<close> is a byte and cannot hold a Cyrillic letter).
  The literals of \<open>parser.py\<close> are written out by code point; the name of each constant
  transliterates the Russian word.

  Python floats are modelled as exact rationals. The parser only adds, subtracts,
  multiplies by 5 and 2, divides minutes by 60 and compares.
\<close>

type_synonym ustr = "nat list"

definition colon :: nat where "colon = 0x3A"
definition hyphen :: nat where "hyphen = 0x2D"
definition en_dash :: nat where "en_dash = 0x2013"
definition comma :: nat where "comma = 0x2C"
definition semicolon :: nat where "semicolon = 0x3B"

text \<open>The seven day tokens: U+043F U+043D (Monday), ..., U+0432 U+0441 (Sunday).\<close>

definition pn :: ustr where "pn = [0x43F, 0x43D]"
definition vt :: ustr where "vt = [0x432, 0x442]"
definition sr :: ustr where "sr = [0x441, 0x440]"
definition cht :: ustr where "cht = [0x447, 0x442]"
definition pt :: ustr where "pt = [0x43F, 0x442]"
definition sb :: ustr where "sb = [0x441, 0x431]"
definition vs :: ustr where "vs = [0x432, 0x441]"

definition WEEK_DAYS :: "ustr set" where
  "WEEK_DAYS = {pn, vt, sr, cht, pt}"

definition WEEKEND_DAYS :: "ustr set" where
  "WEEKEND_DAYS = {sb, vs}"

definition ALL_DAYS :: "ustr set" where
  "ALL_DAYS = WEEK_DAYS \<union> WEEKEND_DAYS"

definition DAY_START :: rat where "DAY_START = 6"
definition DAY_END :: rat where "DAY_END = 22"

text \<open>The keywords: "kruglosutochno" (round the clock), "ezhednevno" (every day),
  the range token Monday-Sunday, and "tsena bokala piva" (price of a glass of beer).\<close>

definition kruglosutochno :: ustr where
  "kruglosutochno = [0x43A, 0x440, 0x443, 0x433, 0x43B, 0x43E, 0x441, 0x443, 0x442, 0x43E,
                     0x447, 0x43D, 0x43E]"

definition ezhednevno :: ustr where
  "ezhednevno = [0x435, 0x436, 0x435, 0x434, 0x43D, 0x435, 0x432, 0x43D, 0x43E]"

definition pn_vs :: ustr where
  "pn_vs = [0x43F, 0x43D, 0x2D, 0x432, 0x441]"

definition tsena_bokala_piva :: ustr where
  "tsena_bokala_piva = [0x446, 0x435, 0x43D, 0x430, 0x20, 0x431, 0x43E, 0x43A, 0x430, 0x43B,
                        0x430, 0x20, 0x43F, 0x438, 0x432, 0x430]"

text \<open>
  \<open>\d\<close> in a \<open>str\<close> pattern, and \<open>int\<close>, accept every Unicode decimal digit. The
  digits come in runs of ten consecutive code points; \<open>decimal_zeros\<close> lists the code
  point of the zero of each run (Unicode 14, the table of CPython 3.11).
\<close>

definition decimal_zeros :: "nat list" where
  "decimal_zeros =
    [0x30, 0x660, 0x6F0, 0x7C0, 0x966, 0x9E6, 0xA66, 0xAE6, 0xB66, 0xBE6, 0xC66, 0xCE6,
     0xD66, 0xDE6, 0xE50, 0xED0, 0xF20, 0x1040, 0x1090, 0x17E0, 0x1810, 0x1946, 0x19D0,
     0x1A80, 0x1A90, 0x1B50, 0x1BB0, 0x1C40, 0x1C50, 0xA620, 0xA8D0, 0xA900, 0xA9D0,
     0xA9F0, 0xAA50, 0xABF0, 0xFF10, 0x104A0, 0x10D30, 0x11066, 0x110F0, 0x11136,
     0x111D0, 0x112F0, 0x11450, 0x114D0, 0x11650, 0x116C0, 0x11730, 0x118E0, 0x11950,
     0x11C50, 0x11D50, 0x11DA0, 0x16A60, 0x16AC0, 0x16B50, 0x1D7CE, 0x1D7D8, 0x1D7E2,
     0x1D7EC, 0x1D7F6, 0x1E140, 0x1E2F0, 0x1E950, 0x1FBF0]"

definition digit_zero :: "nat \<Rightarrow> nat option" where
  "digit_zero c = find (\<lambda>z. z \<le> c \<and> c < z + 10) decimal_zeros"

definition is_digit :: "nat \<Rightarrow> bool" where
  "is_digit c = (digit_zero c \<noteq> None)"

definition digit_val :: "nat \<Rightarrow> int" where
  "digit_val c = (case digit_zero c of Some z \<Rightarrow> int (c - z) | None \<Rightarrow> 0)"

text \<open>\<open>int(s)\<close> for a string of decimal digits, the only strings it is given here:
  every argument is a group that matched \<open>\d{1,2}\<close>, \<open>\d{2}\<close> or \<open>\d+\<close>.\<close>

definition py_int :: "ustr \<Rightarrow> int" where
  "py_int s = foldl (\<lambda>a c. 10 * a + digit_val c) 0 s"

text \<open>\<open>\s\<close> in a \<open>str\<close> pattern and \<open>str.strip()\<close> use the same whitespace set.\<close>

definition is_space :: "nat \<Rightarrow> bool" where
  "is_space c = (c \<in> {9, 10, 11, 12, 13, 28, 29, 30, 31, 32, 133, 160, 5760, 8232, 8233,
                      8239, 8287, 12288} \<or> (8192 \<le> c \<and> c \<le> 8202))"

definition strip :: "ustr \<Rightarrow> ustr" where
  "strip s = rev (dropWhile is_space (rev (dropWhile is_space s)))"

text \<open>\<open>s.replace(en dash, "-")\<close>: both strings are one code point long.\<close>

definition replace_dash :: "ustr \<Rightarrow> ustr" where
  "replace_dash s = map (\<lambda>c. if c = en_dash then hyphen else c) s"

text \<open>\<open>sub in s\<close> and \<open>s.startswith(p)\<close>.\<close>

definition startswith :: "ustr \<Rightarrow> ustr \<Rightarrow> bool" where
  "startswith s p = (take (length p) s = p)"

fun contains :: "ustr \<Rightarrow> ustr \<Rightarrow> bool" where
  "contains [] sub = (sub = [])"
| "contains (c # cs) sub = (startswith (c # cs) sub \<or> contains cs sub)"

text \<open>\<open>s.split(sep)\<close> for a separator of one code point; \<open>cur\<close> is the piece being
  read.\<close>

fun split_on :: "nat \<Rightarrow> ustr \<Rightarrow> ustr \<Rightarrow> ustr list" where
  "split_on sep cur [] = [cur]"
| "split_on sep cur (c # cs) =
     (if c = sep then cur # split_on sep [] cs else split_on sep (cur @ [c]) cs)"

definition split :: "ustr \<Rightarrow> nat \<Rightarrow> ustr list" where
  "split s sep = split_on sep [] s"

text \<open>
  \<open>str.lower()\<close> is a builtin driven by the full Unicode case table. The functions of
  the parser that call it take it as the parameter \<open>lower\<close>, and the general theorems
  hold for every such function. The evaluations on concrete strings use
  \<open>str_lower\<close>, which lowers the capital letters of Basic Latin and of the Cyrillic
  block and leaves every other code point alone; it agrees with \<open>str.lower()\<close> on
  every string evaluated below.
\<close>

definition lower_cp :: "nat \<Rightarrow> nat" where
  "lower_cp c =
     (if 0x41 \<le> c \<and> c \<le> 0x5A then c + 32
      else if 0x410 \<le> c \<and> c \<le> 0x42F then c + 32
      else if 0x400 \<le> c \<and> c \<le> 0x40F then c + 80
      else c)"

definition str_lower :: "ustr \<Rightarrow> ustr" where
  "str_lower s = map lower_cp s"

section \<open>The regular expressions\<close>

text \<open>
  Each pattern of \<open>parser.py\<close> is written as the matcher the backtracking engine runs.
  \<open>digits n\<close> is \<open>\d{n}\<close>, \<open>lit c\<close> one literal code point; both return the rest of
  the input.
\<close>

definition digits :: "nat \<Rightarrow> ustr \<Rightarrow> (ustr \<times> ustr) option" where
  "digits n s =
     (if n \<le> length s \<and> list_all is_digit (take n s) then Some (take n s, drop n s)
      else None)"

definition lit :: "nat \<Rightarrow> ustr \<Rightarrow> ustr option" where
  "lit c s = (case s of [] \<Rightarrow> None | x # r \<Rightarrow> if x = c then Some r else None)"

text \<open>\<open>(\d{k1}):(\d{2})-(\d{k2}):(\d{2})\<close> at the start of \<open>s\<close>: the four groups
  and what follows the match.\<close>

definition time_range_at ::
  "nat \<Rightarrow> nat \<Rightarrow> ustr \<Rightarrow> ((ustr \<times> ustr \<times> ustr \<times> ustr) \<times> ustr) option" where
  "time_range_at k1 k2 s =
     do {
       (h1, r1) \<leftarrow> digits k1 s;
       r2 \<leftarrow> lit colon r1;
       (m1, r3) \<leftarrow> digits 2 r2;
       r4 \<leftarrow> lit hyphen r3;
       (h2, r5) \<leftarrow> digits k2 r4;
       r6 \<leftarrow> lit colon r5;
       (m2, r7) \<leftarrow> digits 2 r6;
       Some ((h1, m1, h2, m2), r7)
     }"

definition orelse :: "'a option \<Rightarrow> 'a option \<Rightarrow> 'a option" where
  "orelse a b = (case a of Some x \<Rightarrow> Some x | None \<Rightarrow> b)"

text \<open>\<open>re.match\<close> of \<open>(\d{1,2}):(\d{2})-(\d{1,2}):(\d{2})\<close>: each \<open>\d{1,2}\<close> is greedy,
  so the engine tries two digits before one, the later group first.\<close>

definition match_time_range :: "ustr \<Rightarrow> ((ustr \<times> ustr \<times> ustr \<times> ustr) \<times> ustr) option" where
  "match_time_range s =
     orelse (time_range_at 2 2 s)
       (orelse (time_range_at 2 1 s)
          (orelse (time_range_at 1 2 s) (time_range_at 1 1 s)))"

text \<open>The text a match covers: what was consumed of \<open>s\<close> when \<open>rest\<close> is left.\<close>

definition matched :: "ustr \<Rightarrow> ustr \<Rightarrow> ustr" where
  "matched s rest = take (length s - length rest) s"

text \<open>\<open>re.search\<close> of the same pattern (without groups): the match at the leftmost
  position where there is one; the result is \<open>match.group()\<close>.\<close>

fun search_time_range :: "ustr \<Rightarrow> ustr option" where
  "search_time_range [] = None"
| "search_time_range (c # cs) =
     (case match_time_range (c # cs) of
        Some (g, rest) \<Rightarrow> Some (matched (c # cs) rest)
      | None \<Rightarrow> search_time_range cs)"

text \<open>
  \<open>re.match\<close> of \<open>([a-ya,\-]+)\s+(\d{1,2}:\d{2}-\d{1,2}:\d{2})\<close>, where \<open>a-ya\<close> is the
  range U+0430 to U+044F. The three parts use disjoint character classes (a letter,
  comma or hyphen; whitespace; a digit), so giving back a character of a greedy run
  never lets the next part match: the match, if any, takes the longest run of day
  characters and the longest run of whitespace. The result is the two groups.
\<close>

definition is_day_char :: "nat \<Rightarrow> bool" where
  "is_day_char c = ((0x430 \<le> c \<and> c \<le> 0x44F) \<or> c = comma \<or> c = hyphen)"

definition match_segment :: "ustr \<Rightarrow> (ustr \<times> ustr) option" where
  "match_segment seg =
     (let days_part = takeWhile is_day_char seg;
          r1 = dropWhile is_day_char seg;
          r2 = dropWhile is_space r1
      in if days_part = [] \<or> length r2 = length r1 then None
         else (case match_time_range r2 of
                 None \<Rightarrow> None
               | Some (g, rest) \<Rightarrow> Some (days_part, matched r2 rest)))"

section \<open>parse\_time\_range, intersects\_day, intersects\_night\<close>

definition parse_time_range :: "ustr \<Rightarrow> (rat \<times> rat) option" where
  "parse_time_range time_range =
     (case match_time_range (replace_dash time_range) of
        None \<Rightarrow> None
      | Some ((h1, m1, h2, m2), rest) \<Rightarrow>
          (let start = of_int (py_int h1) + of_int (py_int m1) / 60;
               end = of_int (py_int h2) + of_int (py_int m2) / 60
           in if end \<le> start then Some (start, end + 24) else Some (start, end)))"

definition intersects_day :: "rat \<Rightarrow> rat \<Rightarrow> bool" where
  "intersects_day start end = (max start DAY_START < min end DAY_END)"

definition night_ranges :: "(rat \<times> rat) list" where
  "night_ranges = [(22, 24), (0, 6)]"

definition intersects_night :: "rat \<Rightarrow> rat \<Rightarrow> bool" where
  "intersects_night start end =
     list_ex (\<lambda>(ns, ne). max start ns < min end ne) night_ranges"

section \<open>expand\_days\<close>

definition order :: "ustr list" where
  "order = [pn, vt, sr, cht, pt, sb, vs]"

text \<open>\<open>list.index\<close>. Its argument is always in the list here (a group of the range
  pattern, which only matches the seven tokens), so the \<open>ValueError\<close> of a missing
  element cannot occur; the model returns the length of the list there.\<close>

fun index :: "'a list \<Rightarrow> 'a \<Rightarrow> nat" where
  "index [] x = 0"
| "index (y # ys) x = (if y = x then 0 else Suc (index ys x))"

text \<open>The slice \<open>xs[i:j]\<close> for \<open>0 \<le> i\<close> and \<open>0 \<le> j\<close>.\<close>

definition slice :: "'a list \<Rightarrow> nat \<Rightarrow> nat \<Rightarrow> 'a list" where
  "slice xs i j = drop i (take j xs)"

text \<open>\<open>re.match\<close> of \<open>(d)-(d)\<close>, where \<open>d\<close> is the alternation of the seven day
  tokens. Every token is two code points long and no two are equal, so at most one
  alternative matches at a position.\<close>

fun match_day_range :: "ustr \<Rightarrow> (ustr \<times> ustr) option" where
  "match_day_range (a # b # c # d # e # rest) =
     (if [a, b] \<in> set order \<and> c = hyphen \<and> [d, e] \<in> set order
      then Some ([a, b], [d, e]) else None)"
| "match_day_range s = None"

text \<open>\<open>re.split\<close> of \<open>,\s*\<close>: a comma and the whitespace after it separate two pieces.
  \<open>skip\<close> says that a separator is being read, \<open>cur\<close> is the piece being read.\<close>

fun re_split_comma :: "bool \<Rightarrow> ustr \<Rightarrow> ustr \<Rightarrow> ustr list" where
  "re_split_comma skip cur [] = [cur]"
| "re_split_comma skip cur (c # cs) =
     (if skip \<and> is_space c then re_split_comma True cur cs
      else if c = comma then cur # re_split_comma True [] cs
      else re_split_comma False (cur @ [c]) cs)"

text \<open>A Python set of day tokens is the list of its elements, none twice;
  \<open>set_add\<close> is \<open>days.add(d)\<close>.\<close>

definition set_add :: "ustr list \<Rightarrow> ustr \<Rightarrow> ustr list" where
  "set_add days d = (if d \<in> set days then days else days @ [d])"

definition expand_days :: "(ustr \<Rightarrow> ustr) \<Rightarrow> ustr \<Rightarrow> ustr list" where
  "expand_days lower days_part0 =
     (let days_part = lower days_part0 in
      case match_day_range days_part of
        Some (start, end) \<Rightarrow>
          (let i1 = index order start; i2 = index order end
           in foldl set_add [] (slice order i1 (i2 + 1)))
      | None \<Rightarrow>
          foldl (\<lambda>days d. if d \<in> ALL_DAYS then set_add days d else days) []
            (re_split_comma False [] days_part))"

section \<open>hours\_parser\<close>

record hours_features =
  is_24_7 :: bool
  is_night :: bool
  is_day :: bool
  on_week :: bool
  on_weekend :: bool
  hours_on_week :: rat
  hours_on_weekend :: rat

text \<open>The record of a missing value, which is also the state the segment loop starts
  from, and the record of a place that never closes.\<close>

definition closed_record :: hours_features where
  "closed_record =
     \<lparr>is_24_7 = False, is_night = False, is_day = False, on_week = False,
      on_weekend = False, hours_on_week = 0, hours_on_weekend = 0\<rparr>"

definition full_time_record :: hours_features where
  "full_time_record =
     \<lparr>is_24_7 = True, is_night = True, is_day = True, on_week = True,
      on_weekend = True, hours_on_week = 24 * 5, hours_on_weekend = 24 * 2\<rparr>"

text \<open>Lines 226 to 230: the two keyword tests.\<close>

definition round_the_clock :: "ustr \<Rightarrow> bool" where
  "round_the_clock text =
     ((contains text kruglosutochno \<and> contains text ezhednevno)
      \<or> (contains text kruglosutochno \<and> contains text pn_vs))"

text \<open>Lines 232 to 239: "every day" with a range that starts at midnight and lasts
  at least 23.99 hours.\<close>

definition near_24h :: "ustr \<Rightarrow> bool" where
  "near_24h text =
     (if startswith text ezhednevno then
        (case search_time_range text of
           None \<Rightarrow> False
         | Some tok \<Rightarrow>
             (case parse_time_range tok of
                None \<Rightarrow> False
              | Some (start, end) \<Rightarrow> start = 0 \<and> end - start \<ge> 2399 / 100))
      else False)"

text \<open>Lines 253 to 272: "every day" with any range; \<open>None\<close> when the branch does not
  return.\<close>

definition daily :: "ustr \<Rightarrow> hours_features option" where
  "daily text =
     (if startswith text ezhednevno then
        (case search_time_range text of
           None \<Rightarrow> None
         | Some tok \<Rightarrow>
             (case parse_time_range tok of
                None \<Rightarrow> None
              | Some (start, end) \<Rightarrow>
                  (let hours = end - start in
                   Some \<lparr>is_24_7 = False, is_night = intersects_night start end,
                         is_day = intersects_day start end, on_week = True,
                         on_weekend = True, hours_on_week = hours * 5,
                         hours_on_weekend = hours * 2\<rparr>)))
      else None)"

text \<open>Lines 304 to 310: the body of the loop over the days of a segment.\<close>

definition add_day :: "rat \<Rightarrow> hours_features \<Rightarrow> ustr \<Rightarrow> hours_features" where
  "add_day hours st d =
     (if d \<in> WEEK_DAYS then
        st\<lparr>on_week := True, hours_on_week := hours_on_week st + hours\<rparr>
      else if d \<in> WEEKEND_DAYS then
        st\<lparr>on_weekend := True, hours_on_weekend := hours_on_weekend st + hours\<rparr>
      else st)"

text \<open>Lines 277 to 310: the body of the loop over the segments; \<open>continue\<close> leaves
  the state as it is. Every day adds the same \<open>hours\<close>, so the order in which the
  set of days is visited does not matter.\<close>

definition segment_step :: "(ustr \<Rightarrow> ustr) \<Rightarrow> hours_features \<Rightarrow> ustr \<Rightarrow> hours_features" where
  "segment_step lower st segment0 =
     (let segment = strip segment0 in
      case match_segment segment of
        None \<Rightarrow> st
      | Some (days_part, time_part) \<Rightarrow>
          (let days = expand_days lower days_part in
           case parse_time_range time_part of
             None \<Rightarrow> st
           | Some (start, end) \<Rightarrow>
               (let hours = end - start;
                    st1 = (if intersects_day start end then st\<lparr>is_day := True\<rparr> else st);
                    st2 = (if intersects_night start end then st1\<lparr>is_night := True\<rparr>
                           else st1)
                in foldl (add_day hours) st2 days)))"

definition hours_parser :: "(ustr \<Rightarrow> ustr) \<Rightarrow> ustr option \<Rightarrow> hours_features" where
  "hours_parser lower hours_str =
     (case hours_str of
        None \<Rightarrow> closed_record
      | Some s \<Rightarrow>
          (let text = replace_dash (lower s) in
           if round_the_clock text \<or> near_24h text then full_time_record
           else (case daily text of
                   Some r \<Rightarrow> r
                 | None \<Rightarrow> foldl (segment_step lower) closed_record (split text semicolon))))"

section \<open>parse\_middle\_beer\_cup\<close>

text \<open>\<open>re.findall\<close> of \<open>\d+\<close>: the maximal runs of digits, left to right; \<open>cur\<close> is
  the run being read.\<close>

fun findall_digits :: "ustr \<Rightarrow> ustr \<Rightarrow> ustr list" where
  "findall_digits cur [] = (if cur = [] then [] else [cur])"
| "findall_digits cur (c # cs) =
     (if is_digit c then findall_digits (cur @ [c]) cs
      else if cur = [] then findall_digits [] cs
      else cur # findall_digits [] cs)"

text \<open>\<open>np.nan\<close> is \<open>None\<close>. The median of two numbers is their mean.\<close>

definition parse_middle_beer_cup :: "(ustr \<Rightarrow> ustr) \<Rightarrow> ustr option \<Rightarrow> rat option" where
  "parse_middle_beer_cup lower value0 =
     (case value0 of
        None \<Rightarrow> None
      | Some v \<Rightarrow>
          (let value = strip (lower v) in
           if \<not> contains value tsena_bokala_piva then None
           else (case map py_int (findall_digits [] value) of
                   [] \<Rightarrow> None
                 | [n] \<Rightarrow> Some (of_int n)
                 | n1 # n2 # others \<Rightarrow> Some ((of_int n1 + of_int n2) / 2))))"

section \<open>The strings evaluated below\<close>

text \<open>The code points of an ASCII literal.\<close>

definition ascii :: "string \<Rightarrow> ustr" where
  "ascii s = map of_char s"

text \<open>"ezhednevno 00:00-23:59" and "ezhednevno 00:00-24:00".\<close>

definition every_day_0000_2359 :: ustr where
  "every_day_0000_2359 = ezhednevno @ ascii '' 00:00-23:59''"

definition every_day_0000_2400 :: ustr where
  "every_day_0000_2400 = ezhednevno @ ascii '' 00:00-24:00''"

text \<open>"30:00-01:00", "22:00-02:00" and "ezhednevno 30:00-01:00".\<close>

definition range_3000_0100 :: ustr where
  "range_3000_0100 = ascii ''30:00-01:00''"

definition range_2200_0200 :: ustr where
  "range_2200_0200 = ascii ''22:00-02:00''"

definition every_day_3000_0100 :: ustr where
  "every_day_3000_0100 = ezhednevno @ ascii '' 30:00-01:00''"

text \<open>"pn-pt 09:00-18:00; sb,vs 10:00-16:00", its first segment "pn-pt 09:00-18:00",
  and "sb-pn 10:00-18:00".\<close>

definition mon_fri_sat_sun :: ustr where
  "mon_fri_sat_sun =
     pn @ ascii ''-'' @ pt @ ascii '' 09:00-18:00; '' @ sb @ ascii '','' @ vs
       @ ascii '' 10:00-16:00''"

definition mon_fri_days :: ustr where
  "mon_fri_days = pn @ ascii ''-'' @ pt"

definition mon_fri_0900_1800 :: ustr where
  "mon_fri_0900_1800 = mon_fri_days @ ascii '' 09:00-18:00''"



text \<open>"tsena bokala piva 150" (no colon), "tsena bokala piva: 150" and
  "tsena bokala piva: 100-200".\<close>

definition beer_no_colon :: ustr where
  "beer_no_colon = tsena_bokala_piva @ ascii '' 150''"

definition beer_150 :: ustr where
  "beer_150 = tsena_bokala_piva @ ascii '': 150''"

definition beer_100_200 :: ustr where
  "beer_100_200 = tsena_bokala_piva @ ascii '': 100-200''"

section \<open>Evaluation on concrete code points\<close>

lemma digit_zero_ascii: "0x30 \<le> c \<Longrightarrow> c \<le> 0x39 \<Longrightarrow> digit_zero c = Some 0x30"
  by (simp add: digit_zero_def decimal_zeros_def)

lemma digit_zero_low: "c < 0x30 \<Longrightarrow> digit_zero c = None"
  by (simp add: digit_zero_def decimal_zeros_def)

lemma digit_zero_mid: "0x3A \<le> c \<Longrightarrow> c < 0x660 \<Longrightarrow> digit_zero c = None"
  by (simp add: digit_zero_def decimal_zeros_def)

lemma is_space_low: "0x21 \<le> c \<Longrightarrow> c < 133 \<Longrightarrow> \<not> is_space c"
  by (auto simp: is_space_def)

lemma is_space_mid: "160 < c \<Longrightarrow> c < 5760 \<Longrightarrow> \<not> is_space c"
  by (auto simp: is_space_def)

lemma is_space_blank: "is_space 0x20"
  by (simp add: is_space_def)

lemmas char_defs = is_digit_def digit_zero_ascii digit_zero_low digit_zero_mid digit_val_def
  is_space_low is_space_mid is_space_blank is_day_char_def colon_def hyphen_def comma_def
  semicolon_def en_dash_def lower_cp_def ascii_def

lemmas token_defs = pn_def vt_def sr_def cht_def pt_def sb_def vs_def ezhednevno_def
  kruglosutochno_def pn_vs_def tsena_bokala_piva_def order_def WEEK_DAYS_def WEEKEND_DAYS_def
  ALL_DAYS_def

lemmas regex_defs = digits_def lit_def time_range_at_def orelse_def match_time_range_def
  matched_def match_segment_def

lemmas parser_defs = hours_parser_def round_the_clock_def near_24h_def daily_def
  segment_step_def add_day_def expand_days_def set_add_def slice_def split_def strip_def
  parse_time_range_def replace_dash_def str_lower_def startswith_def py_int_def
  intersects_day_def intersects_night_def night_ranges_def DAY_START_def DAY_END_def
  closed_record_def full_time_record_def parse_middle_beer_cup_def Let_def

section \<open>parse\_time\_range: the rollover rule\<close>

lemma digit_val_nonneg: "0 \<le> digit_val c"
  by (simp add: digit_val_def split: option.split)

lemma py_int_acc_nonneg: "0 \<le> a \<Longrightarrow> 0 \<le> foldl (\<lambda>a c. 10 * a + digit_val c) a s"
  by (induction s arbitrary: a) (simp_all add: digit_val_nonneg)

lemma py_int_nonneg: "0 \<le> py_int s"
  by (simp add: py_int_def py_int_acc_nonneg)

lemma clock_nonneg: "(0::rat) \<le> of_int (py_int h) + of_int (py_int m) / 60"
  by (simp add: py_int_nonneg)

text \<open>What a parsed pair looks like: the start is not negative, and either the end is
  after the start, or both are at 24 hours or more.\<close>

lemma parse_time_range_cases:
  assumes "parse_time_range s = Some (start, end)"
  shows "0 \<le> start \<and> (start < end \<or> (24 \<le> start \<and> 24 \<le> end))"
proof (cases "match_time_range (replace_dash s)")
  case None
  with assms show ?thesis by (simp add: parse_time_range_def)
next
  case (Some p)
  obtain h1 m1 h2 m2 rest where p: "p = ((h1, m1, h2, m2), rest)"
    by (cases p) auto
  define a :: rat where "a = of_int (py_int h1) + of_int (py_int m1) / 60"
  define b :: rat where "b = of_int (py_int h2) + of_int (py_int m2) / 60"
  have a0: "0 \<le> a" and b0: "0 \<le> b"
    unfolding a_def b_def by (rule clock_nonneg)+
  from assms Some p
  have "(b \<le> a \<longrightarrow> start = a \<and> end = b + 24) \<and> (\<not> b \<le> a \<longrightarrow> start = a \<and> end = b)"
    by (auto simp: parse_time_range_def Let_def a_def b_def split: if_splits)
  with a0 b0 show ?thesis
    by (cases "b \<le> a") auto
qed

lemma parse_time_range_positive:
  "parse_time_range s = Some (start, end) \<Longrightarrow> start < 24 \<Longrightarrow> 0 < end - start"
  using parse_time_range_cases by fastforce

text \<open>
  Claim C2, as stated, for every string the pattern accepts: the returned pair has
  \<open>end > start\<close>. It fails at "30:00-01:00": the end 1.0 is not after the start 30.0,
  24 is added, and the pair is (30, 25).
\<close>

theorem parse_time_range_3000_0100:
  "parse_time_range range_3000_0100 = Some (30, 25) \<and> \<not> (30::rat) < 25"
  by (simp add: range_3000_0100_def parse_time_range_def replace_dash_def py_int_def
        regex_defs char_defs)

text \<open>
  Claim C2, amended: for every string the pattern accepts whose start is before 24
  hours, the returned pair has \<open>end > start\<close>.
\<close>

theorem parse_time_range_rollover:
  "parse_time_range s = Some (start, end) \<Longrightarrow> start < 24 \<Longrightarrow> start < end"
  using parse_time_range_cases by fastforce

theorem parse_time_range_rollover_witness:
  "parse_time_range range_2200_0200 = Some (22, 26) \<and> (22::rat) < 24 \<and> (22::rat) < 26"
proof -
  have p: "parse_time_range range_2200_0200 = Some (22, 26)"
    by (simp add: range_2200_0200_def parse_time_range_def replace_dash_def py_int_def
          regex_defs char_defs)
  have b: "(22::rat) < 24" by simp
  from parse_time_range_rollover [OF p b] p b show ?thesis by simp
qed

section \<open>intersects\_night\<close>

text \<open>
  Claim C8: for every pair with \<open>0 \<le> start < 24\<close> and \<open>end > 24\<close>,
  \<open>intersects_night\<close> returns true: the window from 22 to 24 overlaps the interval.
\<close>

theorem intersects_night_rolled:
  "0 \<le> start \<Longrightarrow> start < 24 \<Longrightarrow> 24 < end \<Longrightarrow> intersects_night start end"
  by (simp add: intersects_night_def night_ranges_def)

theorem intersects_night_rolled_witness:
  "(0::rat) \<le> 23 \<and> (23::rat) < 24 \<and> (24::rat) < 25 \<and> intersects_night 23 25"
  using intersects_night_rolled [of 23 25] by simp

section \<open>expand\_days on a range of days\<close>

lemma day_token_shape:
  assumes "d \<in> set order"
  shows "length d = 2 \<and> str_lower d = d"
  using assms by (auto simp: order_def token_defs lower_cp_def str_lower_def)

lemma two_elements: "length d = 2 \<Longrightarrow> \<exists>a b. d = [a, b]"
  by (auto simp: length_Suc_conv numeral_2_eq_2)

lemma match_day_range_token:
  assumes "d1 \<in> set order" and "d2 \<in> set order"
  shows "match_day_range (str_lower (d1 @ [hyphen] @ d2)) = Some (d1, d2)"
proof -
  from day_token_shape [OF assms(1)] two_elements obtain a b
    where d1: "d1 = [a, b]" "str_lower d1 = d1" by blast
  from day_token_shape [OF assms(2)] two_elements obtain c d
    where d2: "d2 = [c, d]" "str_lower d2 = d2" by blast
  have "str_lower (d1 @ [hyphen] @ d2) = d1 @ [hyphen] @ d2"
    using d1(2) d2(2) by (simp add: str_lower_def lower_cp_def hyphen_def)
  with d1(1) d2(1) assms show ?thesis by simp
qed

lemma set_add_loop: "distinct (acc @ xs) \<Longrightarrow> foldl set_add acc xs = acc @ xs"
  by (induction xs arbitrary: acc) (simp_all add: set_add_def)

lemma distinct_order: "distinct order"
  by (simp add: order_def token_defs)

lemma index_less: "x \<in> set xs \<Longrightarrow> index xs x < length xs"
  by (induction xs) auto

lemma slice_nth: "j \<le> length xs \<Longrightarrow> slice xs i j = map ((!) xs) [i ..< j]"
  by (rule nth_equalityI) (auto simp: slice_def)

text \<open>
  Claim C7: for a range token \<open>d1-d2\<close> of two day tokens, \<open>expand_days\<close> returns the
  days of \<open>order\<close> from the index of \<open>d1\<close> to the index of \<open>d2\<close>, both included, and
  nothing when the index of \<open>d1\<close> is after the index of \<open>d2\<close>.
\<close>

theorem expand_days_range:
  assumes "d1 \<in> set order" and "d2 \<in> set order"
  shows "expand_days str_lower (d1 @ [hyphen] @ d2) =
           map ((!) order) [index order d1 ..< Suc (index order d2)]
         \<and> (index order d2 < index order d1 \<longrightarrow>
              expand_days str_lower (d1 @ [hyphen] @ d2) = [])"
proof -
  let ?i1 = "index order d1" and ?i2 = "index order d2"
  have "distinct (slice order ?i1 (?i2 + 1))"
    using distinct_order by (simp add: slice_def)
  then have "foldl set_add [] (slice order ?i1 (?i2 + 1)) = slice order ?i1 (?i2 + 1)"
    using set_add_loop [of "[]"] by simp
  moreover have "?i2 + 1 \<le> length order"
    using index_less [OF assms(2)] by simp
  ultimately have
    "expand_days str_lower (d1 @ [hyphen] @ d2) = map ((!) order) [?i1 ..< Suc ?i2]"
    using match_day_range_token [OF assms] slice_nth [of "?i2 + 1" order ?i1]
    by (simp add: expand_days_def Let_def)
  then show ?thesis by simp
qed

theorem expand_days_range_witness:
  "pn \<in> set order \<and> pt \<in> set order
   \<and> expand_days str_lower (pn @ [hyphen] @ pt) = [pn, vt, sr, cht, pt]
   \<and> sb \<in> set order
   \<and> expand_days str_lower (sb @ [hyphen] @ pn) = []"
proof -
  have a: "pn \<in> set order" and b: "pt \<in> set order" and c: "sb \<in> set order"
    by (simp_all add: order_def)
  have i: "index order pn = 0" "index order pt = 4" "index order sb = 5"
    by (simp_all add: order_def token_defs)
  from expand_days_range [OF a b] expand_days_range [OF c a] a b c i show ?thesis
    by (simp add: upt_rec order_def)
qed

section \<open>hours\_parser: a missing value\<close>

text \<open>
  Claim C9: for a missing value \<open>hours_parser\<close> returns the record with the five flags
  false and both totals zero. The function is total, and the result does not depend on
  \<open>lower\<close>: no text is processed.
\<close>

theorem hours_parser_null:
  "hours_parser lower None =
     \<lparr>is_24_7 = False, is_night = False, is_day = False, on_week = False,
      on_weekend = False, hours_on_week = 0, hours_on_weekend = 0\<rparr>"
  by (simp add: hours_parser_def closed_record_def)

section \<open>hours\_parser: the full-time record\<close>

lemma add_day_24_7: "is_24_7 (add_day hours st d) = is_24_7 st"
  by (simp add: add_day_def)

lemma days_loop_24_7: "is_24_7 (foldl (add_day hours) st days) = is_24_7 st"
  by (induction days arbitrary: st) (simp_all add: add_day_24_7)

lemma segment_step_24_7: "is_24_7 (segment_step lower st seg) = is_24_7 st"
  by (simp add: segment_step_def Let_def days_loop_24_7 split: option.split prod.split)

lemma segments_loop_24_7: "is_24_7 (foldl (segment_step lower) st segs) = is_24_7 st"
  by (induction segs arbitrary: st) (simp_all add: segment_step_24_7)

lemma daily_24_7: "daily text = Some r \<Longrightarrow> \<not> is_24_7 r"
  by (auto simp: daily_def Let_def split: if_splits option.splits prod.splits)

lemma hours_parser_24_7_cases:
  "hours_parser lower x = full_time_record \<or> \<not> is_24_7 (hours_parser lower x)"
  by (auto simp: hours_parser_def Let_def closed_record_def segments_loop_24_7
           dest: daily_24_7 split: option.splits)

text \<open>The second way to the full-time record: the text starts with "ezhednevno" and
  its leftmost time range starts at 0 and lasts 23.99 hours or more.\<close>

lemma near_24h_first_range:
  assumes "startswith (replace_dash (lower s)) ezhednevno"
    and "search_time_range (replace_dash (lower s)) = Some tok"
    and "parse_time_range tok = Some (0, end)" and "2399 / 100 \<le> end"
  shows "hours_parser lower (Some s) = full_time_record"
  using assms by (simp add: hours_parser_def near_24h_def)

lemma every_day_2400_full_time:
  "hours_parser str_lower (Some every_day_0000_2400) = full_time_record"
  by (simp add: every_day_0000_2400_def parser_defs regex_defs char_defs token_defs)

text \<open>
  Claim C4: if the record returned by \<open>hours_parser\<close> has \<open>is_24_7\<close> true, then
  \<open>is_night\<close>, \<open>is_day\<close>, \<open>on_week\<close> and \<open>on_weekend\<close> are true, \<open>hours_on_week\<close> is 120
  and \<open>hours_on_weekend\<close> is 48.
\<close>

theorem full_time_saturated:
  assumes "is_24_7 (hours_parser lower x)"
  shows "is_night (hours_parser lower x) \<and> is_day (hours_parser lower x)
         \<and> on_week (hours_parser lower x) \<and> on_weekend (hours_parser lower x)
         \<and> hours_on_week (hours_parser lower x) = 120
         \<and> hours_on_weekend (hours_parser lower x) = 48"
proof -
  from assms hours_parser_24_7_cases [of lower x]
  have "hours_parser lower x = full_time_record" by blast
  then show ?thesis by (simp add: full_time_record_def)
qed

theorem full_time_saturated_witness:
  "is_24_7 (hours_parser str_lower (Some every_day_0000_2400))
   \<and> is_night (hours_parser str_lower (Some every_day_0000_2400))
   \<and> is_day (hours_parser str_lower (Some every_day_0000_2400))
   \<and> on_week (hours_parser str_lower (Some every_day_0000_2400))
   \<and> on_weekend (hours_parser str_lower (Some every_day_0000_2400))
   \<and> hours_on_week (hours_parser str_lower (Some every_day_0000_2400)) = 120
   \<and> hours_on_weekend (hours_parser str_lower (Some every_day_0000_2400)) = 48"
proof -
  have h: "is_24_7 (hours_parser str_lower (Some every_day_0000_2400))"
    by (simp add: every_day_2400_full_time full_time_record_def)
  from full_time_saturated [OF h] h show ?thesis by simp
qed

section \<open>hours\_parser on concrete strings\<close>

text \<open>
  Claim C1 says that "ezhednevno 00:00-23:59" is classified as full-time, as the
  docstring of \<open>hours_parser\<close> does. The code does not: 23:59 is 23 + 59/60 hours, about
  23.983, which is below the threshold 23.99, so the string takes the "every day with a
  range" branch and \<open>is_24_7\<close> is false.
\<close>

theorem every_day_2359_not_full_time:
  "hours_parser str_lower (Some every_day_0000_2359) =
     \<lparr>is_24_7 = False, is_night = True, is_day = True, on_week = True,
      on_weekend = True, hours_on_week = 1439 / 12, hours_on_weekend = 1439 / 30\<rparr>"
  by (simp add: every_day_0000_2359_def parser_defs regex_defs char_defs token_defs)

lemma week_not_weekend: "d \<in> WEEK_DAYS \<Longrightarrow> d \<notin> WEEKEND_DAYS"
  by (auto simp: token_defs)

lemma days_loop_totals:
  "hours_on_week (foldl (add_day hours) st days) =
     hours_on_week st + hours * of_nat (length (filter (\<lambda>d. d \<in> WEEK_DAYS) days))
   \<and> hours_on_weekend (foldl (add_day hours) st days) =
     hours_on_weekend st + hours * of_nat (length (filter (\<lambda>d. d \<in> WEEKEND_DAYS) days))
   \<and> on_week (foldl (add_day hours) st days) = (on_week st \<or> set days \<inter> WEEK_DAYS \<noteq> {})
   \<and> on_weekend (foldl (add_day hours) st days) =
     (on_weekend st \<or> set days \<inter> WEEKEND_DAYS \<noteq> {})"
proof (induction days arbitrary: st)
  case Nil
  then show ?case by simp
next
  case (Cons d days)
  show ?case
  proof (cases "d \<in> WEEK_DAYS")
    case True
    with week_not_weekend [OF True] Cons.IH [of "add_day hours st d"] show ?thesis
      by (simp add: add_day_def algebra_simps)
  next
    case False
    with Cons.IH [of "add_day hours st d"] show ?thesis
      by (simp add: add_day_def algebra_simps)
  qed
qed

lemma set_add_distinct: "distinct days \<Longrightarrow> distinct (set_add days d)"
  by (simp add: set_add_def)

lemma set_add_loop_distinct: "distinct days \<Longrightarrow> distinct (foldl set_add days xs)"
  by (induction xs arbitrary: days) (simp_all add: set_add_distinct)

lemma add_known_loop_distinct:
  "distinct days \<Longrightarrow>
     distinct (foldl (\<lambda>days d. if d \<in> ALL_DAYS then set_add days d else days) days xs)"
  by (induction xs arbitrary: days) (simp_all add: set_add_distinct)

lemma expand_days_distinct: "distinct (expand_days lower days_part)"
  by (simp add: expand_days_def Let_def set_add_loop_distinct add_known_loop_distinct
        split: option.split prod.split)

lemma count_days:
  "distinct days \<Longrightarrow> length (filter (\<lambda>d. d \<in> A) days) = card (set days \<inter> A)"
  by (simp add: distinct_length_filter Int_commute Collect_mem_eq)

text \<open>
  Claim C5: in the segmented format each matching segment adds its full duration once
  for every day it covers, on top of what the earlier segments added: the weekday total
  grows by the duration times the number of weekdays in the segment's set of days, the
  weekend total by the duration times the number of its weekend days, and a flag is set
  when that number is not zero. When neither full-time test nor the "every day" branch
  applies, the record is the result of this step over the segments in order, starting
  from zero. "pn-pt 09:00-18:00; sb,vs 10:00-16:00" gives 5 times 9 hours on weekdays and
  2 times 6 hours on the weekend, a day range and no night range.
\<close>

theorem segments_add_per_day:
  "(\<forall>lower st seg days_part time_part start end.
      match_segment (strip seg) = Some (days_part, time_part) \<longrightarrow>
      parse_time_range time_part = Some (start, end) \<longrightarrow>
        hours_on_week (segment_step lower st seg) =
          hours_on_week st
            + (end - start) * of_nat (card (set (expand_days lower days_part) \<inter> WEEK_DAYS))
        \<and> hours_on_weekend (segment_step lower st seg) =
          hours_on_weekend st
            + (end - start) * of_nat (card (set (expand_days lower days_part) \<inter> WEEKEND_DAYS))
        \<and> on_week (segment_step lower st seg) =
          (on_week st \<or> set (expand_days lower days_part) \<inter> WEEK_DAYS \<noteq> {})
        \<and> on_weekend (segment_step lower st seg) =
          (on_weekend st \<or> set (expand_days lower days_part) \<inter> WEEKEND_DAYS \<noteq> {}))
   \<and> (\<forall>lower s. \<not> round_the_clock (replace_dash (lower s)) \<longrightarrow>
          \<not> near_24h (replace_dash (lower s)) \<longrightarrow>
          daily (replace_dash (lower s)) = None \<longrightarrow>
          hours_parser lower (Some s) =
            foldl (segment_step lower) closed_record (split (replace_dash (lower s)) semicolon))
   \<and> hours_parser str_lower (Some mon_fri_sat_sun) =
       \<lparr>is_24_7 = False, is_night = False, is_day = True, on_week = True,
        on_weekend = True, hours_on_week = 45, hours_on_weekend = 12\<rparr>"
proof (intro conjI allI impI)
  show "hours_parser str_lower (Some mon_fri_sat_sun) =
       \<lparr>is_24_7 = False, is_night = False, is_day = True, on_week = True,
        on_weekend = True, hours_on_week = 45, hours_on_weekend = 12\<rparr>"
    by (simp add: mon_fri_sat_sun_def parser_defs regex_defs char_defs token_defs)
next
  fix lower :: "ustr \<Rightarrow> ustr" and s
  assume "\<not> round_the_clock (replace_dash (lower s))" "\<not> near_24h (replace_dash (lower s))"
    "daily (replace_dash (lower s)) = None"
  then show "hours_parser lower (Some s) =
      foldl (segment_step lower) closed_record (split (replace_dash (lower s)) semicolon)"
    by (simp add: hours_parser_def)
next
  fix lower seg days_part time_part and st :: hours_features and start "end" :: rat
  assume m: "match_segment (strip seg) = Some (days_part, time_part)"
    and p: "parse_time_range time_part = Some (start, end)"
  define st2 where "st2 =
    (let st1 = (if intersects_day start end then st\<lparr>is_day := True\<rparr> else st)
     in if intersects_night start end then st1\<lparr>is_night := True\<rparr> else st1)"
  let ?days = "expand_days lower days_part"
  have step: "segment_step lower st seg = foldl (add_day (end - start)) st2 ?days"
    using m p by (simp add: segment_step_def st2_def Let_def)
  have st2: "hours_on_week st2 = hours_on_week st" "hours_on_weekend st2 = hours_on_weekend st"
    "on_week st2 = on_week st" "on_weekend st2 = on_weekend st"
    by (simp_all add: st2_def Let_def)
  note tot = days_loop_totals [of "end - start" st2 ?days]
  note cnt = count_days [OF expand_days_distinct, of _ lower days_part]
  show "hours_on_week (segment_step lower st seg) =
          hours_on_week st + (end - start) * of_nat (card (set ?days \<inter> WEEK_DAYS))"
    using tot by (simp add: step st2 cnt)
  show "hours_on_weekend (segment_step lower st seg) =
          hours_on_weekend st + (end - start) * of_nat (card (set ?days \<inter> WEEKEND_DAYS))"
    using tot by (simp add: step st2 cnt)
  show "on_week (segment_step lower st seg) = (on_week st \<or> set ?days \<inter> WEEK_DAYS \<noteq> {})"
    using tot by (simp add: step st2)
  show "on_weekend (segment_step lower st seg) =
          (on_weekend st \<or> set ?days \<inter> WEEKEND_DAYS \<noteq> {})"
    using tot by (simp add: step st2)
qed

theorem segments_add_per_day_witness:
  "match_segment (strip mon_fri_0900_1800) = Some (mon_fri_days, ascii ''09:00-18:00'')
   \<and> parse_time_range (ascii ''09:00-18:00'') = Some (9, 18)
   \<and> card (set (expand_days str_lower mon_fri_days) \<inter> WEEK_DAYS) = 5
   \<and> card (set (expand_days str_lower mon_fri_days) \<inter> WEEKEND_DAYS) = 0
   \<and> hours_on_week (segment_step str_lower closed_record mon_fri_0900_1800) = 45
   \<and> hours_on_weekend (segment_step str_lower closed_record mon_fri_0900_1800) = 0
   \<and> on_week (segment_step str_lower closed_record mon_fri_0900_1800)
   \<and> \<not> on_weekend (segment_step str_lower closed_record mon_fri_0900_1800)
   \<and> \<not> round_the_clock (replace_dash (str_lower mon_fri_sat_sun))
   \<and> \<not> near_24h (replace_dash (str_lower mon_fri_sat_sun))
   \<and> daily (replace_dash (str_lower mon_fri_sat_sun)) = None
   \<and> hours_parser str_lower (Some mon_fri_sat_sun) =
       foldl (segment_step str_lower) closed_record
         (split (replace_dash (str_lower mon_fri_sat_sun)) semicolon)"
proof -
  have r: "\<not> round_the_clock (replace_dash (str_lower mon_fri_sat_sun))"
    and n: "\<not> near_24h (replace_dash (str_lower mon_fri_sat_sun))"
    and d: "daily (replace_dash (str_lower mon_fri_sat_sun)) = None"
    by (simp_all add: mon_fri_sat_sun_def round_the_clock_def near_24h_def daily_def
          replace_dash_def str_lower_def startswith_def char_defs token_defs)
  from segments_add_per_day r n d
  have f: "hours_parser str_lower (Some mon_fri_sat_sun) =
       foldl (segment_step str_lower) closed_record
         (split (replace_dash (str_lower mon_fri_sat_sun)) semicolon)"
    by blast
  have m: "match_segment (strip mon_fri_0900_1800) = Some (mon_fri_days, ascii ''09:00-18:00'')"
    by (simp add: mon_fri_0900_1800_def mon_fri_days_def strip_def regex_defs char_defs
          token_defs)
  have p: "parse_time_range (ascii ''09:00-18:00'') = Some (9, 18)"
    by (simp add: parse_time_range_def replace_dash_def py_int_def regex_defs char_defs)
  have e: "expand_days str_lower mon_fri_days = [pn, vt, sr, cht, pt]"
    by (simp add: mon_fri_days_def parser_defs char_defs token_defs)
  have iw: "set (expand_days str_lower mon_fri_days) \<inter> WEEK_DAYS = {pn, vt, sr, cht, pt}"
    and ik: "set (expand_days str_lower mon_fri_days) \<inter> WEEKEND_DAYS = {}"
    by (auto simp: e token_defs)
  have cw: "card (set (expand_days str_lower mon_fri_days) \<inter> WEEK_DAYS) = 5"
    unfolding iw by (simp add: token_defs)
  have nw: "set (expand_days str_lower mon_fri_days) \<inter> WEEK_DAYS \<noteq> {}"
    unfolding iw by simp
  from segments_add_per_day m p
  have "hours_on_week (segment_step str_lower closed_record mon_fri_0900_1800) =
          hours_on_week closed_record
            + (18 - 9) * of_nat (card (set (expand_days str_lower mon_fri_days) \<inter> WEEK_DAYS))
        \<and> hours_on_weekend (segment_step str_lower closed_record mon_fri_0900_1800) =
          hours_on_weekend closed_record
            + (18 - 9) * of_nat (card (set (expand_days str_lower mon_fri_days) \<inter> WEEKEND_DAYS))
        \<and> on_week (segment_step str_lower closed_record mon_fri_0900_1800) =
          (on_week closed_record \<or> set (expand_days str_lower mon_fri_days) \<inter> WEEK_DAYS \<noteq> {})
        \<and> on_weekend (segment_step str_lower closed_record mon_fri_0900_1800) =
          (on_weekend closed_record
           \<or> set (expand_days str_lower mon_fri_days) \<inter> WEEKEND_DAYS \<noteq> {})"
    by blast
  with m p r n d f show ?thesis
    by (simp add: cw ik nw closed_record_def)
qed



section \<open>The time-range pattern is deterministic\<close>

lemma digits_Some:
  "digits n s = Some (d, r) \<longleftrightarrow> s = d @ r \<and> length d = n \<and> list_all is_digit d"
  by (auto simp: digits_def)

lemma lit_Some: "lit c s = Some r \<longleftrightarrow> s = c # r"
  by (cases s) (auto simp: lit_def)

lemma time_range_at_Some:
  "time_range_at k1 k2 s = Some ((h1, m1, h2, m2), r) \<longleftrightarrow>
     s = h1 @ colon # m1 @ hyphen # h2 @ colon # m2 @ r
     \<and> length h1 = k1 \<and> length m1 = 2 \<and> length h2 = k2 \<and> length m2 = 2
     \<and> list_all is_digit h1 \<and> list_all is_digit m1
     \<and> list_all is_digit h2 \<and> list_all is_digit m2"
  by (auto simp: time_range_at_def bind_eq_Some_conv digits_Some lit_Some)

lemma colon_no_digit: "\<not> is_digit colon"
  by (simp add: char_defs)

lemma hours_group_unique:
  assumes "h @ colon # t = h' @ colon # t'"
    and "length h = 1 \<or> length h = 2" and "length h' = 1 \<or> length h' = 2"
    and "list_all is_digit h" and "list_all is_digit h'"
  shows "h = h' \<and> t = t'"
proof -
  have "length h = length h'"
  proof (rule ccontr)
    assume ne: "length h \<noteq> length h'"
    show False
    proof (cases "length h = 1")
      case True
      with ne assms(3) have l: "length h' = 2" by simp
      from True obtain a where h: "h = [a]" by (cases h) auto
      from l obtain b c where h': "h' = [b, c]"
        by (auto simp: length_Suc_conv numeral_2_eq_2)
      from assms(1) h h' have "c = colon" by simp
      with assms(5) h' colon_no_digit show False by simp
    next
      case False
      with assms(2) have l: "length h = 2" by simp
      with ne assms(3) have l': "length h' = 1" by simp
      from l' obtain a where h': "h' = [a]" by (cases h') auto
      from l obtain b c where h: "h = [b, c]"
        by (auto simp: length_Suc_conv numeral_2_eq_2)
      from assms(1) h h' have "c = colon" by simp
      with assms(4) h colon_no_digit show False by simp
    qed
  qed
  with assms(1) show ?thesis by simp
qed

lemma time_range_at_unique:
  assumes "time_range_at k1 k2 s = Some p" and "time_range_at j1 j2 s = Some q"
    and "k1 = 1 \<or> k1 = 2" and "k2 = 1 \<or> k2 = 2" and "j1 = 1 \<or> j1 = 2" and "j2 = 1 \<or> j2 = 2"
  shows "p = q"
proof -
  obtain h1 m1 h2 m2 r where p: "p = ((h1, m1, h2, m2), r)" by (cases p) auto
  obtain h1' m1' h2' m2' r' where q: "q = ((h1', m1', h2', m2'), r')" by (cases q) auto
  note P = assms(1) [unfolded p time_range_at_Some]
  note Q = assms(2) [unfolded q time_range_at_Some]
  from P Q have e1: "h1 @ colon # (m1 @ hyphen # h2 @ colon # m2 @ r) =
                     h1' @ colon # (m1' @ hyphen # h2' @ colon # m2' @ r')" by simp
  from hours_group_unique [OF e1] P Q assms(3-6)
  have a: "h1 = h1'" and e2: "m1 @ hyphen # h2 @ colon # m2 @ r = m1' @ hyphen # h2' @ colon # m2' @ r'"
    by auto
  from e2 P Q have b: "m1 = m1'" and e3: "h2 @ colon # (m2 @ r) = h2' @ colon # (m2' @ r')"
    by auto
  from hours_group_unique [OF e3] P Q assms(3-6)
  have c: "h2 = h2'" and e4: "m2 @ r = m2' @ r'" by auto
  from e4 P Q have "m2 = m2'" "r = r'" by auto
  with a b c p q show ?thesis by simp
qed

lemma orelse_Some: "orelse a b = Some p \<longleftrightarrow> a = Some p \<or> (a = None \<and> b = Some p)"
  by (cases a) (simp_all add: orelse_def)

lemma orelse_None: "orelse a b = None \<longleftrightarrow> a = None \<and> b = None"
  by (cases a) (simp_all add: orelse_def)

lemma match_time_range_None:
  "match_time_range s = None \<longleftrightarrow>
     time_range_at 2 2 s = None \<and> time_range_at 2 1 s = None
     \<and> time_range_at 1 2 s = None \<and> time_range_at 1 1 s = None"
  by (simp add: match_time_range_def orelse_None)

lemma match_time_range_attempt:
  assumes "match_time_range s = Some p"
  shows "\<exists>k1 k2. (k1 = 1 \<or> k1 = 2) \<and> (k2 = 1 \<or> k2 = 2) \<and> time_range_at k1 k2 s = Some p"
proof -
  from assms have "time_range_at 2 2 s = Some p \<or> time_range_at 2 1 s = Some p
      \<or> time_range_at 1 2 s = Some p \<or> time_range_at 1 1 s = Some p"
    by (auto simp: match_time_range_def orelse_Some)
  then show ?thesis by blast
qed

lemma match_time_range_iff:
  "match_time_range s = Some p \<longleftrightarrow>
     (\<exists>k1 k2. (k1 = 1 \<or> k1 = 2) \<and> (k2 = 1 \<or> k2 = 2) \<and> time_range_at k1 k2 s = Some p)"
proof
  assume "match_time_range s = Some p"
  then show "\<exists>k1 k2. (k1 = 1 \<or> k1 = 2) \<and> (k2 = 1 \<or> k2 = 2) \<and> time_range_at k1 k2 s = Some p"
    by (rule match_time_range_attempt)
next
  assume "\<exists>k1 k2. (k1 = 1 \<or> k1 = 2) \<and> (k2 = 1 \<or> k2 = 2) \<and> time_range_at k1 k2 s = Some p"
  then obtain k1 k2 where k: "k1 = 1 \<or> k1 = 2" "k2 = 1 \<or> k2 = 2"
    and t: "time_range_at k1 k2 s = Some p" by blast
  have "match_time_range s \<noteq> None"
  proof
    assume "match_time_range s = None"
    then have "time_range_at 2 2 s = None" "time_range_at 2 1 s = None"
      "time_range_at 1 2 s = None" "time_range_at 1 1 s = None"
      by (simp_all add: match_time_range_None)
    with k t show False by (elim disjE) simp_all
  qed
  then obtain q where q: "match_time_range s = Some q" by auto
  from match_time_range_attempt [OF q] obtain j1 j2 where j: "j1 = 1 \<or> j1 = 2" "j2 = 1 \<or> j2 = 2"
    and u: "time_range_at j1 j2 s = Some q" by blast
  from time_range_at_unique [OF t u k j] q show "match_time_range s = Some p" by simp
qed

lemma matched_append: "matched (t @ r) r = t"
  by (simp add: matched_def)

lemma match_time_range_token:
  assumes "match_time_range s = Some (g, r)"
  shows "s = matched s r @ r \<and> match_time_range (matched s r @ x) = Some (g, x)"
proof -
  obtain h1 m1 h2 m2 where g: "g = (h1, m1, h2, m2)" by (cases g) auto
  from assms obtain k1 k2 where k: "k1 = 1 \<or> k1 = 2" "k2 = 1 \<or> k2 = 2"
    and t: "time_range_at k1 k2 s = Some (g, r)"
    unfolding match_time_range_iff by blast
  let ?t = "h1 @ colon # m1 @ hyphen # h2 @ colon # m2"
  from t g have s: "s = ?t @ r" and rest: "time_range_at k1 k2 (?t @ x) = Some (g, x)"
    by (simp_all add: time_range_at_Some)
  from s have m: "matched s r = ?t" using matched_append [of ?t r] by simp
  from rest k have "match_time_range (?t @ x) = Some (g, x)"
    unfolding match_time_range_iff by blast
  with s m show ?thesis by simp
qed

section \<open>Where the tokens of hours\_parser come from\<close>

lemma replace_dash_free: "en_dash \<notin> set (replace_dash s)"
  by (auto simp: replace_dash_def en_dash_def hyphen_def)

lemma replace_dash_id: "en_dash \<notin> set s \<Longrightarrow> replace_dash s = s"
  by (induction s) (auto simp: replace_dash_def)

text \<open>On a text without en dash, the token of a match parses as the text at the
  position of the match does.\<close>

lemma parse_time_range_groups:
  assumes "match_time_range (replace_dash s) = Some (g, r)"
    and "match_time_range (replace_dash s') = Some (g, r')"
  shows "parse_time_range s = parse_time_range s'"
  using assms by (cases g) (simp add: parse_time_range_def)

lemma parse_token:
  assumes "match_time_range u = Some (g, r)" and "en_dash \<notin> set (u @ x)"
  shows "parse_time_range (matched u r) = parse_time_range (u @ x)"
proof -
  from match_time_range_token [OF assms(1)]
  have u: "u = matched u r @ r"
    and a: "match_time_range (matched u r @ []) = Some (g, [])"
    and b: "match_time_range (matched u r @ (r @ x)) = Some (g, r @ x)"
    by blast+
  from u have ux: "u @ x = matched u r @ (r @ x)" by simp
  from u assms(2) have "en_dash \<notin> set (matched u r)"
    by (metis Un_iff set_append)
  then have "replace_dash (matched u r) = matched u r" by (rule replace_dash_id)
  with a have 1: "match_time_range (replace_dash (matched u r)) = Some (g, [])" by simp
  from assms(2) have "replace_dash (u @ x) = u @ x" by (rule replace_dash_id)
  with b ux have 2: "match_time_range (replace_dash (u @ x)) = Some (g, r @ x)" by metis
  from 1 2 show ?thesis by (rule parse_time_range_groups)
qed

lemma search_time_range_Some:
  "search_time_range t = Some tok \<Longrightarrow>
     \<exists>u g r. suffix u t \<and> match_time_range u = Some (g, r) \<and> tok = matched u r"
proof (induction t)
  case Nil
  then show ?case by simp
next
  case (Cons c cs)
  show ?case
  proof (cases "match_time_range (c # cs)")
    case None
    with Cons.prems have "search_time_range cs = Some tok" by simp
    from Cons.IH [OF this] obtain u g r
      where "suffix u cs" "match_time_range u = Some (g, r)" "tok = matched u r" by blast
    moreover from this(1) have "suffix u (c # cs)" by (simp add: suffix_Cons)
    ultimately show ?thesis by blast
  next
    case (Some p)
    obtain g r where "p = (g, r)" by (cases p)
    with Some Cons.prems have "match_time_range (c # cs) = Some (g, r)" "tok = matched (c # cs) r"
      by simp_all
    then show ?thesis by blast
  qed
qed

lemma split_on_sublist:
  "seg \<in> set (split_on sep cur s) \<Longrightarrow> sublist seg (cur @ s)"
proof (induction s arbitrary: cur)
  case Nil
  then show ?case by simp
next
  case (Cons c cs)
  show ?case
  proof (cases "c = sep")
    case True
    with Cons.prems have "seg = cur \<or> seg \<in> set (split_on sep [] cs)" by simp
    then show ?thesis
    proof
      assume "seg = cur"
      then show ?thesis by (simp add: sublist_append)
    next
      assume "seg \<in> set (split_on sep [] cs)"
      from Cons.IH [OF this] have "sublist seg cs" by simp
      then show ?thesis by (metis sublist_Cons_right sublist_appendI append_Nil sublist_append)
    qed
  next
    case False
    with Cons.prems have "seg \<in> set (split_on sep (cur @ [c]) cs)" by simp
    from Cons.IH [OF this] show ?thesis by simp
  qed
qed

lemma strip_sublist: "sublist (strip s) s"
proof -
  let ?d = "dropWhile is_space s"
  have "rev ?d = takeWhile is_space (rev ?d) @ dropWhile is_space (rev ?d)" by simp
  then have "?d = strip s @ rev (takeWhile is_space (rev ?d))"
    unfolding strip_def by (metis rev_append rev_rev_ident)
  moreover have "s = takeWhile is_space s @ ?d" by simp
  ultimately have "s = takeWhile is_space s @ strip s @ rev (takeWhile is_space (rev ?d))"
    by simp
  then show ?thesis unfolding sublist_def by blast
qed

lemma match_segment_Some:
  assumes "match_segment seg = Some (days_part, time_part)"
  shows "\<exists>u g r. suffix u seg \<and> match_time_range u = Some (g, r) \<and> time_part = matched u r"
proof -
  let ?u = "dropWhile is_space (dropWhile is_day_char seg)"
  have "suffix ?u seg"
    by (meson suffix_dropWhile suffix_order.trans)
  moreover from assms obtain g r
    where "match_time_range ?u = Some (g, r)" "time_part = matched ?u r"
    by (auto simp: match_segment_def Let_def split: if_splits option.splits)
  ultimately show ?thesis by blast
qed

section \<open>hours\_parser: the totals are not negative\<close>

text \<open>
  Claim C3, as stated, for every input: \<open>hours_on_week \<ge> 0\<close> and
  \<open>hours_on_weekend \<ge> 0\<close>. It fails at "ezhednevno 30:00-01:00": the range parses to
  (30, 25), the duration is -5, and the totals are -25 and -10.
\<close>

theorem hours_every_day_3000_0100:
  "hours_on_week (hours_parser str_lower (Some every_day_3000_0100)) = - 25
   \<and> hours_on_weekend (hours_parser str_lower (Some every_day_3000_0100)) = - 10
   \<and> \<not> (0::rat) \<le> - 25"
  by (simp add: every_day_3000_0100_def parser_defs regex_defs char_defs token_defs)

text \<open>The starts of all ranges that can be read somewhere in \<open>t\<close> are before 24.\<close>

lemma token_start:
  assumes ok: "\<forall>v \<in> set (suffixes t).
                 case parse_time_range v of None \<Rightarrow> True | Some (start, end) \<Rightarrow> start < 24"
    and free: "en_dash \<notin> set t"
    and sub: "sublist u' t" and suf: "suffix u u'"
    and m: "match_time_range u = Some (g, r)"
    and p: "parse_time_range (matched u r) = Some (start, end)"
  shows "0 \<le> end - start"
proof -
  from sub obtain ps ss where t: "t = ps @ u' @ ss" unfolding sublist_def by blast
  from suf obtain qs where u': "u' = qs @ u" unfolding suffix_def by blast
  from t u' have t': "t = (ps @ qs) @ (u @ ss)" by simp
  then have "suffix (u @ ss) t" unfolding suffix_def by blast
  then have mem: "u @ ss \<in> set (suffixes t)" by (simp add: in_set_suffixes)
  from free t' have "en_dash \<notin> set (u @ ss)" by (metis Un_iff set_append)
  from parse_token [OF m this] p have "parse_time_range (u @ ss) = Some (start, end)" by simp
  with ok mem have "start < 24" by fastforce
  with parse_time_range_positive [OF p] show ?thesis by simp
qed

lemma add_day_nonneg:
  assumes "0 \<le> hours" and "0 \<le> hours_on_week st \<and> 0 \<le> hours_on_weekend st"
  shows "0 \<le> hours_on_week (add_day hours st d) \<and> 0 \<le> hours_on_weekend (add_day hours st d)"
  using assms by (simp add: add_day_def)

lemma days_loop_nonneg:
  assumes "0 \<le> hours" and "0 \<le> hours_on_week st \<and> 0 \<le> hours_on_weekend st"
  shows "0 \<le> hours_on_week (foldl (add_day hours) st days)
         \<and> 0 \<le> hours_on_weekend (foldl (add_day hours) st days)"
  using assms(2)
proof (induction days arbitrary: st)
  case Nil
  then show ?case by simp
next
  case (Cons d days)
  from add_day_nonneg [OF assms(1) Cons.prems] Cons.IH show ?case by simp
qed

lemma segment_step_nonneg:
  assumes ok: "\<forall>v \<in> set (suffixes t).
                 case parse_time_range v of None \<Rightarrow> True | Some (start, end) \<Rightarrow> start < 24"
    and free: "en_dash \<notin> set t"
    and seg: "sublist seg t"
    and st: "0 \<le> hours_on_week st \<and> 0 \<le> hours_on_weekend st"
  shows "0 \<le> hours_on_week (segment_step lower st seg)
         \<and> 0 \<le> hours_on_weekend (segment_step lower st seg)"
proof (cases "match_segment (strip seg)")
  case None
  with st show ?thesis by (simp add: segment_step_def)
next
  case (Some dt)
  obtain days_part time_part where dt: "dt = (days_part, time_part)" by (cases dt)
  show ?thesis
  proof (cases "parse_time_range time_part")
    case None
    with Some dt st show ?thesis by (simp add: segment_step_def)
  next
    case (Some se)
    obtain start "end" where se: "se = (start, end)" by (cases se)
    from \<open>match_segment (strip seg) = Some dt\<close> dt match_segment_Some obtain u g r
      where u: "suffix u (strip seg)" "match_time_range u = Some (g, r)"
        and tp: "time_part = matched u r" by blast
    have "sublist (strip seg) t"
      using strip_sublist seg by (rule sublist_order.order.trans)
    from token_start [OF ok free this u] Some se tp have h: "0 \<le> end - start" by simp
    define st2 where "st2 =
      (let st1 = (if intersects_day start end then st\<lparr>is_day := True\<rparr> else st)
       in if intersects_night start end then st1\<lparr>is_night := True\<rparr> else st1)"
    have "0 \<le> hours_on_week st2 \<and> 0 \<le> hours_on_weekend st2"
      using st by (simp add: st2_def Let_def)
    from days_loop_nonneg [OF h this]
    have "0 \<le> hours_on_week (foldl (add_day (end - start)) st2 (expand_days lower days_part))
          \<and> 0 \<le> hours_on_weekend (foldl (add_day (end - start)) st2 (expand_days lower days_part))" .
    moreover have "segment_step lower st seg =
        foldl (add_day (end - start)) st2 (expand_days lower days_part)"
      using \<open>match_segment (strip seg) = Some dt\<close> dt Some se
      by (simp add: segment_step_def st2_def Let_def)
    ultimately show ?thesis by simp
  qed
qed

lemma segments_loop_nonneg:
  assumes ok: "\<forall>v \<in> set (suffixes t).
                 case parse_time_range v of None \<Rightarrow> True | Some (start, end) \<Rightarrow> start < 24"
    and free: "en_dash \<notin> set t"
  shows "\<forall>seg \<in> set segs. sublist seg t \<Longrightarrow>
         0 \<le> hours_on_week st \<and> 0 \<le> hours_on_weekend st \<Longrightarrow>
         0 \<le> hours_on_week (foldl (segment_step lower) st segs)
         \<and> 0 \<le> hours_on_weekend (foldl (segment_step lower) st segs)"
proof (induction segs arbitrary: st)
  case Nil
  then show ?case by simp
next
  case (Cons seg segs)
  from Cons.prems(1) have "sublist seg t" by simp
  from segment_step_nonneg [OF ok free this Cons.prems(2)]
  have "0 \<le> hours_on_week (segment_step lower st seg)
        \<and> 0 \<le> hours_on_weekend (segment_step lower st seg)" .
  with Cons.IH [of "segment_step lower st seg"] Cons.prems(1) show ?case by simp
qed

lemma daily_nonneg:
  assumes ok: "\<forall>v \<in> set (suffixes t).
                 case parse_time_range v of None \<Rightarrow> True | Some (start, end) \<Rightarrow> start < 24"
    and free: "en_dash \<notin> set t"
    and d: "daily t = Some rec"
  shows "0 \<le> hours_on_week rec \<and> 0 \<le> hours_on_weekend rec"
proof -
  from d obtain tok start "end" where
    s: "search_time_range t = Some tok" and p: "parse_time_range tok = Some (start, end)"
    and r: "hours_on_week rec = (end - start) * 5" "hours_on_weekend rec = (end - start) * 2"
    by (auto simp: daily_def Let_def split: if_splits option.splits)
  from search_time_range_Some [OF s] obtain u g r
    where u: "suffix u t" "match_time_range u = Some (g, r)" and tok: "tok = matched u r"
    by blast
  have "sublist t t" by simp
  from token_start [OF ok free this u] p tok have "0 \<le> end - start" by simp
  with r show ?thesis by simp
qed

text \<open>
  Claim C3, amended: if no position of the normalized text (lower-cased, en dash
  replaced by hyphen) starts a time range whose start is at 24 hours or later, then
  \<open>hours_on_week \<ge> 0\<close> and \<open>hours_on_weekend \<ge> 0\<close>; a missing value included.
\<close>

theorem hours_nonneg:
  assumes "\<forall>s. hours_str = Some s \<longrightarrow>
             (\<forall>v \<in> set (suffixes (replace_dash (lower s))).
                case parse_time_range v of None \<Rightarrow> True | Some (start, end) \<Rightarrow> start < 24)"
  shows "0 \<le> hours_on_week (hours_parser lower hours_str)
         \<and> 0 \<le> hours_on_weekend (hours_parser lower hours_str)"
proof (cases hours_str)
  case None
  then show ?thesis by (simp add: hours_parser_def closed_record_def)
next
  case (Some s)
  define t where "t = replace_dash (lower s)"
  from assms Some have ok: "\<forall>v \<in> set (suffixes t).
      case parse_time_range v of None \<Rightarrow> True | Some (start, end) \<Rightarrow> start < 24"
    by (simp add: t_def)
  have free: "en_dash \<notin> set t" unfolding t_def by (rule replace_dash_free)
  show ?thesis
  proof (cases "round_the_clock t \<or> near_24h t")
    case True
    with Some show ?thesis by (simp add: hours_parser_def t_def [symmetric] full_time_record_def)
  next
    case False
    show ?thesis
    proof (cases "daily t")
      case (Some rec)
      from daily_nonneg [OF ok free Some] \<open>hours_str = Some s\<close> False Some show ?thesis
        by (simp add: hours_parser_def t_def [symmetric])
    next
      case None
      have "\<forall>seg \<in> set (split t semicolon). sublist seg t"
        using split_on_sublist [of _ semicolon "[]" t] by (simp add: split_def)
      from segments_loop_nonneg [OF ok free this, of closed_record lower]
      have "0 \<le> hours_on_week (foldl (segment_step lower) closed_record (split t semicolon))
            \<and> 0 \<le> hours_on_weekend (foldl (segment_step lower) closed_record (split t semicolon))"
        by (simp add: closed_record_def)
      with \<open>hours_str = Some s\<close> False None show ?thesis
        by (simp add: hours_parser_def t_def [symmetric])
    qed
  qed
qed

theorem hours_nonneg_witness:
  "list_all (\<lambda>v. case parse_time_range v of None \<Rightarrow> True | Some (start, end) \<Rightarrow> start < 24)
     (suffixes (replace_dash (str_lower mon_fri_sat_sun)))
   \<and> 0 \<le> hours_on_week (hours_parser str_lower (Some mon_fri_sat_sun))
   \<and> 0 \<le> hours_on_weekend (hours_parser str_lower (Some mon_fri_sat_sun))"
proof -
  have h: "list_all (\<lambda>v. case parse_time_range v of None \<Rightarrow> True | Some (start, end) \<Rightarrow> start < 24)
     (suffixes (replace_dash (str_lower mon_fri_sat_sun)))"
    by (simp add: mon_fri_sat_sun_def parse_time_range_def replace_dash_def str_lower_def
          py_int_def regex_defs char_defs token_defs)
  then have "\<forall>s. Some mon_fri_sat_sun = Some s \<longrightarrow>
      (\<forall>v \<in> set (suffixes (replace_dash (str_lower s))).
         case parse_time_range v of None \<Rightarrow> True | Some (start, end) \<Rightarrow> start < 24)"
    by (simp add: list_all_iff)
  from hours_nonneg [OF this] h show ?thesis by blast
qed

section \<open>parse\_middle\_beer\_cup: the key phrase\<close>

lemma beer_examples:
  "parse_middle_beer_cup str_lower (Some beer_150) = Some 150"
  "parse_middle_beer_cup str_lower (Some beer_100_200) = Some 150"
  "parse_middle_beer_cup lower None = None"
  by (simp_all add: beer_150_def beer_100_200_def parser_defs regex_defs char_defs token_defs)

text \<open>
  Claim C6 says that no value is returned when the text lacks the key phrase with its
  colon, "tsena bokala piva:", as the docstring of \<open>parse_middle_beer_cup\<close> does. The
  code tests for the phrase without the colon: "tsena bokala piva 150" does not contain
  the phrase with the colon, and the result is 150.
\<close>

theorem beer_without_colon:
  "parse_middle_beer_cup str_lower (Some beer_no_colon) = Some 150
   \<and> \<not> contains (strip (str_lower beer_no_colon)) (tsena_bokala_piva @ [colon])"
  by (simp add: beer_no_colon_def parser_defs regex_defs char_defs token_defs)

end
